theory Spec2Isabelle
  imports Main "HOL-Library.AList"
begin

section \<open>Errors\<close>

text \<open>
  Every exception of the Python source is a value.  \<open>ValueError\<close>, \<open>AssertionError\<close> and
  \<open>NotImplementedError\<close> are raised explicitly (with the message of the source);
  \<open>AttributeError\<close> is what Python raises when an attribute is read from an object that does
  not have it (the string is the attribute).  \<open>ExternalError\<close> stands for any failure of a
  library call (loading a model or a tokenizer).  \<open>InvalidTreeError\<close> is named by the
  specification only: no statement of the source raises it.
\<close>

datatype py_error =
    ValueError string
  | AssertionError string
  | NotImplementedError string
  | AttributeError string
  | ExternalError string
  | InvalidTreeError

section \<open>The forward computation synthesised by a wrapper\<close>

text \<open>
  A forward computation takes the positional arguments and the keyword arguments of a call
  and returns a value or raises.
\<close>

type_synonym 'v forward = "'v list \<Rightarrow> (string \<times> 'v) list \<Rightarrow> py_error + 'v"

text \<open>
  \<^verbatim>\<open>HookedInstance._create_forward\<close>:
  \<^verbatim>\<open>
    original_forward = self._module.forward
    def new_forward(*args, **kwargs):
        return self.hook_point(original_forward(*args, **kwargs))
    self.forward = new_forward
  \<close>
  \<open>self.hook_point\<close> is read when \<open>new_forward\<close> is called, before the arguments of the call
  are evaluated: a wrapper that was given no hook point (\<open>None\<close> below) raises
  \<open>AttributeError\<close> without calling the original forward.  The hook point itself is the
  chain of registered interceptors, a function of the value.
\<close>

definition new_forward ::
  "('v \<Rightarrow> py_error + 'v) option \<Rightarrow> 'v forward \<Rightarrow> 'v forward" where
  "new_forward hook_point original_forward args kwargs =
     (case hook_point of
        None \<Rightarrow> Inl (AttributeError ''hook_point'')
      | Some hp \<Rightarrow>
          (case original_forward args kwargs of
             Inl e \<Rightarrow> Inl e
           | Inr r \<Rightarrow> hp r))"

text \<open>
  \<^verbatim>\<open>HookedTransformerAdapter._wrap_block\<close>:
  \<^verbatim>\<open>
    original_forward = block.forward
    def wrapped_forward(*args, **kwargs):
        return original_forward(*args)
    block.forward = wrapped_forward
  \<close>
\<close>

definition wrapped_forward :: "'v forward \<Rightarrow> 'v forward" where
  "wrapped_forward original_forward args kwargs = original_forward args []"

text \<open>Two forward computations and a hook point used as concrete inputs below.\<close>

definition count_kwargs_forward :: "int forward" where
  "count_kwargs_forward args kwargs = Inr (int (length kwargs))"

definition sum_forward :: "int forward" where
  "sum_forward args kwargs = Inr (sum_list args + sum_list (map snd kwargs))"

definition pass_through :: "int \<Rightarrow> py_error + int" where
  "pass_through x = Inr x"

section \<open>The auto-hooking engine\<close>

subsection \<open>Module trees\<close>

text \<open>
  A module is an \<^verbatim>\<open>nn.Module\<close> object.  What the engine reads of it is
  \<^item> which of the classes it tests with \<^verbatim>\<open>isinstance\<close> the object belongs to
    (\<open>kind\<close>), and its concrete class (\<open>cls\<close>, the class that \<^verbatim>\<open>type(submodule)()\<close>
    instantiates);
  \<^item> whether its forward computation is implemented (\<open>fwd\<close>, what
    \<^verbatim>\<open>has_implemented_forward\<close> finds in the source text of \<open>forward\<close>);
  \<^item> its attributes that are not sub-modules (\<open>attrs\<close>: parameters, buffers and other
    values, each with the identity of the object it holds);
  \<^item> its sub-modules (\<open>modules\<close>, the ordered dictionary \<^verbatim>\<open>_modules\<close>: an association
    list in insertion order).

  A \<^verbatim>\<open>HookedInstance\<close> is a module of its own class: its sub-modules are \<^verbatim>\<open>_module\<close>
  (assigned first by the constructor) and, when the constructor created one,
  \<^verbatim>\<open>hook_point\<close>.

  Trees are values: every node is an object of its own, and no object is a sub-module of
  two parents or twice of the same parent.  An assignment to an attribute of an object is
  a function from the object to the object with the attribute changed.
\<close>

datatype kind = HookPointK | ModuleListK | SequentialK | ModuleDictK | OtherK

datatype module =
    Module (kind: kind) (cls: string) (fwd: bool) (attrs: "(string \<times> nat) list")
      (modules: "(string \<times> module) list")
  | HookedInstance module "module option"

text \<open>The \<^verbatim>\<open>isinstance\<close> tests of the source.\<close>

fun is_HookPoint :: "module \<Rightarrow> bool" where
  "is_HookPoint (Module k c f a ms) = (k = HookPointK)"
| "is_HookPoint (HookedInstance m hp) = False"

fun is_ordered :: "module \<Rightarrow> bool" where
  "is_ordered (Module k c f a ms) = (k = ModuleListK \<or> k = SequentialK)"
| "is_ordered (HookedInstance m hp) = False"

fun is_ModuleDict :: "module \<Rightarrow> bool" where
  "is_ModuleDict (Module k c f a ms) = (k = ModuleDictK)"
| "is_ModuleDict (HookedInstance m hp) = False"

fun is_HookedInstance :: "module \<Rightarrow> bool" where
  "is_HookedInstance (Module k c f a ms) = False"
| "is_HookedInstance (HookedInstance m hp) = True"

text \<open>
  \<^verbatim>\<open>named_children()\<close>: the entries of \<^verbatim>\<open>_modules\<close> in order.  (The generator also skips
  an object it has already yielded; in a tree there is none.)  The items of a
  \<^verbatim>\<open>ModuleDict\<close> and the elements of a \<^verbatim>\<open>ModuleList\<close> or \<^verbatim>\<open>Sequential\<close> are the same
  entries.
\<close>

fun named_children :: "module \<Rightarrow> (string \<times> module) list" where
  "named_children (Module k c f a ms) = ms"
| "named_children (HookedInstance m hp) =
     (''_module'', m) # (case hp of None \<Rightarrow> [] | Some p \<Rightarrow> [(''hook_point'', p)])"

text \<open>\<^verbatim>\<open>hasattr(x, 'hook_point')\<close>.\<close>

fun has_hook_point :: "module \<Rightarrow> bool" where
  "has_hook_point (Module k c f a ms) =
     (''hook_point'' \<in> set (map fst a) \<or> ''hook_point'' \<in> set (map fst ms))"
| "has_hook_point (HookedInstance m hp) = (hp \<noteq> None)"

text \<open>
  \<^verbatim>\<open>setattr(x, name, value)\<close> for a module \<open>value\<close>: the entry of \<^verbatim>\<open>_modules\<close> is
  overwritten in its place, or added at the end.  The engine assigns only to names that
  \<^verbatim>\<open>named_children()\<close> has just yielded; for a \<^verbatim>\<open>HookedInstance\<close> these are \<^verbatim>\<open>_module\<close>
  and \<^verbatim>\<open>hook_point\<close>.
\<close>

fun setattr :: "module \<Rightarrow> string \<Rightarrow> module \<Rightarrow> module" where
  "setattr (Module k c f a ms) n v = Module k c f a (AList.update n v ms)"
| "setattr (HookedInstance m hp) n v =
     (if n = ''_module'' then HookedInstance v hp
      else if n = ''hook_point'' then HookedInstance m (Some v)
      else HookedInstance m hp)"

text \<open>\<^verbatim>\<open>type(submodule)()\<close>: an empty container of the class of \<open>submodule\<close>.\<close>

fun new_like :: "module \<Rightarrow> module" where
  "new_like (Module k c f a ms) = Module k c f [] []"
| "new_like (HookedInstance m hp) = HookedInstance m hp"

text \<open>\<^verbatim>\<open>str(n)\<close> for a natural number: its decimal digits.\<close>

function string_of_nat :: "nat \<Rightarrow> string" where
  "string_of_nat n =
     (if n < 10 then [char_of (48 + n)]
      else string_of_nat (n div 10) @ [char_of (48 + n mod 10)])"
  by pat_completeness auto
termination
  by (relation "measure id") auto

declare string_of_nat.simps [simp del]

text \<open>
  \<^verbatim>\<open>container.append(x)\<close> of \<^verbatim>\<open>ModuleList\<close> and \<^verbatim>\<open>Sequential\<close> is
  \<^verbatim>\<open>add_module(str(len(self)), x)\<close>; \<^verbatim>\<open>container[key] = x\<close> of \<^verbatim>\<open>ModuleDict\<close> is
  \<^verbatim>\<open>add_module(key, x)\<close>.  Both are called on containers that \<open>new_like\<close> has created.
\<close>

fun append_module :: "module \<Rightarrow> module \<Rightarrow> module" where
  "append_module (Module k c f a ms) x =
     Module k c f a (AList.update (string_of_nat (length ms)) x ms)"
| "append_module (HookedInstance m hp) x = HookedInstance m hp"

fun setitem :: "module \<Rightarrow> string \<Rightarrow> module \<Rightarrow> module" where
  "setitem (Module k c f a ms) key x = Module k c f a (AList.update key x ms)"
| "setitem (HookedInstance m hp) key x = HookedInstance m hp"

text \<open>\<^verbatim>\<open>HookPoint()\<close>: a new observation point.\<close>

definition new_HookPoint :: module where
  "new_HookPoint = Module HookPointK ''HookPoint'' True [] []"

subsection \<open>Wrapping\<close>

text \<open>
  \<^verbatim>\<open>auto_hook\<close> on an instance and \<^verbatim>\<open>HookedInstance.__init__\<close>:
  \<^verbatim>\<open>
    self._module = module
    if not hasattr(self._module, 'hook_point'):
        self.hook_point = HookPoint()
    self._create_forward()
    self._wrap_submodules()
    self.setup()
  \<close>
  and \<^verbatim>\<open>_wrap_submodules\<close>:
  \<^verbatim>\<open>
    for name, submodule in self._module.named_children():
        if isinstance(submodule, HookPoint):
            continue
        elif isinstance(submodule, (nn.ModuleList, nn.Sequential)):
            Hooked_container = type(submodule)()
            for i, m in enumerate(submodule):
                Hooked_container.append(auto_hook(m))
            setattr(self._module, name, Hooked_container)
        elif isinstance(submodule, nn.ModuleDict):
            Hooked_container = type(submodule)()
            for key, m in submodule.items():
                Hooked_container[key] = auto_hook(m)
            setattr(self._module, name, Hooked_container)
        else:
            setattr(self._module, name, auto_hook(submodule))
  \<close>
  \<open>wrap_submodules m\<close> is the object \<open>m\<close> after the loop has assigned to its attributes;
  \<open>wrap_child\<close> is the body of the loop for one child: \<open>None\<close> for \<^verbatim>\<open>continue\<close>, or the
  value that is assigned.  On a class, \<^verbatim>\<open>auto_hook\<close> only stores the class; calling the
  stored class constructs the instance and applies \<^verbatim>\<open>auto_hook\<close> to it.
\<close>

function auto_hook :: "module \<Rightarrow> module"
  and wrap_submodules :: "module \<Rightarrow> module"
  and wrap_child :: "module \<Rightarrow> module option" where
  "auto_hook m =
     HookedInstance (wrap_submodules m)
       (if has_hook_point m then None else Some new_HookPoint)"
| "wrap_submodules m =
     fold (\<lambda>(name, submodule) self_module.
             case wrap_child submodule of
               None \<Rightarrow> self_module
             | Some hooked \<Rightarrow> setattr self_module name hooked)
       (named_children m) m"
| "wrap_child submodule =
     (if is_HookPoint submodule then None
      else if is_ordered submodule then
        Some (fold (\<lambda>(i, e) container. append_module container (auto_hook e))
                (named_children submodule) (new_like submodule))
      else if is_ModuleDict submodule then
        Some (fold (\<lambda>(key, e) container. setitem container key (auto_hook e))
                (named_children submodule) (new_like submodule))
      else Some (auto_hook submodule))"
  by pat_completeness auto
termination
proof -
  have in_list: "(n, c) \<in> set ms \<Longrightarrow> size c < Suc (size_list (size_prod (\<lambda>x. 0) size) ms)"
    for n c and ms :: "(string \<times> module) list"
    by (induction ms) auto
  have sz: "(n, c) \<in> set (named_children m) \<Longrightarrow> size c < size m" for n c m
    by (cases m) (auto dest: in_list split: option.splits)
  show ?thesis
    by (relation "measure (\<lambda>x. case x of Inl m \<Rightarrow> 3 * size m + 1
                                   | Inr (Inl m) \<Rightarrow> 3 * size m
                                   | Inr (Inr m) \<Rightarrow> 3 * size m + 2)")
       (auto dest: sz)
qed

declare auto_hook.simps [simp del] wrap_submodules.simps [simp del] wrap_child.simps [simp del]

text \<open>
  \<^verbatim>\<open>Hooked.unwrap = lambda: module_or_class\<close>: the closure returns the object that
  \<^verbatim>\<open>auto_hook\<close> was given, which is the object held in \<^verbatim>\<open>_module\<close>, in the state the
  loop above left it in.  Only the objects returned by \<^verbatim>\<open>auto_hook\<close> have the attribute.
\<close>

fun unwrap :: "module \<Rightarrow> py_error + module" where
  "unwrap (HookedInstance m hp) = Inr m"
| "unwrap (Module k c f a ms) = Inl (AttributeError ''unwrap'')"

subsection \<open>Unwrapping\<close>

text \<open>
  \<^verbatim>\<open>HookedInstance.unwrap_instance\<close>:
  \<^verbatim>\<open>
    for name, submodule in self._module.named_children():
        if isinstance(submodule, (nn.ModuleList, nn.Sequential)):
            unHooked_container = type(submodule)()
            for m in submodule:
                unHooked_container.append(
                    m.unwrap_instance() if isinstance(m, HookedInstance) else m)
            setattr(self._module, name, unHooked_container)
        elif isinstance(submodule, nn.ModuleDict):
            unHooked_container = type(submodule)()
            for key, m in submodule.items():
                unHooked_container[key] =
                    m.unwrap_instance() if isinstance(m, HookedInstance) else m
            setattr(self._module, name, unHooked_container)
        elif isinstance(submodule, HookedInstance):
            setattr(self._module, name, submodule.unwrap_instance())
    return self._module
  \<close>
  \<open>unwrap_instance_of m\<close> is the result of the method on a wrapper whose \<^verbatim>\<open>_module\<close> is
  \<open>m\<close>; \<open>unwrap_element\<close> is the conditional expression
  \<^verbatim>\<open>m.unwrap_instance() if isinstance(m, HookedInstance) else m\<close>.
\<close>

function unwrap_instance_of :: "module \<Rightarrow> module"
  and unwrap_element :: "module \<Rightarrow> module" where
  "unwrap_instance_of m =
     fold (\<lambda>(name, submodule) self_module.
             if is_ordered submodule then
               setattr self_module name
                 (fold (\<lambda>(i, e) container. append_module container (unwrap_element e))
                    (named_children submodule) (new_like submodule))
             else if is_ModuleDict submodule then
               setattr self_module name
                 (fold (\<lambda>(key, e) container. setitem container key (unwrap_element e))
                    (named_children submodule) (new_like submodule))
             else if is_HookedInstance submodule then
               setattr self_module name (unwrap_element submodule)
             else self_module)
       (named_children m) m"
| "unwrap_element (HookedInstance m hp) = unwrap_instance_of m"
| "unwrap_element (Module k c f a ms) = Module k c f a ms"
  by pat_completeness auto
termination
proof -
  have in_list: "(n, c) \<in> set ms \<Longrightarrow> size c < Suc (size_list (size_prod (\<lambda>x. 0) size) ms)"
    for n c and ms :: "(string \<times> module) list"
    by (induction ms) auto
  have sz: "(n, c) \<in> set (named_children m) \<Longrightarrow> size c < size m" for n c m
    by (cases m) (auto dest: in_list split: option.splits)
  show ?thesis
    by (relation "measure (\<lambda>x. case x of Inl m \<Rightarrow> 2 * size m + 1
                                   | Inr m \<Rightarrow> 2 * size m)")
       (auto dest!: sz)
qed

declare unwrap_instance_of.simps [simp del]

text \<open>The method exists on wrappers only.\<close>

fun unwrap_instance :: "module \<Rightarrow> py_error + module" where
  "unwrap_instance (HookedInstance m hp) = Inr (unwrap_instance_of m)"
| "unwrap_instance (Module k c f a ms) = Inl (AttributeError ''unwrap_instance'')"

subsection \<open>Traversal and hook names\<close>

text \<open>\<^verbatim>\<open>prefix + ('.' if prefix else '') + name\<close>.\<close>

definition join_path :: "string \<Rightarrow> string \<Rightarrow> string" where
  "join_path prefix name = prefix @ (if prefix \<noteq> [] then ''.'' else []) @ name"

text \<open>
  \<^verbatim>\<open>named_modules(memo, prefix)\<close>.  On a \<^verbatim>\<open>HookedInstance\<close> it is the overriding method:
  \<^verbatim>\<open>
    if self not in memo:
        memo.add(self)
        yield prefix, self
        for name, module in self._module.named_children():
            if module not in memo:
                submodule_prefix = prefix + ('.' if prefix else '') + name
                if isinstance(module, HookedInstance):
                    yield from module.named_modules(memo, submodule_prefix)
                else:
                    yield submodule_prefix, module
                    if hasattr(module, 'named_modules'):
                        yield from module.named_modules(memo, submodule_prefix)
        if hasattr(self, 'hook_point'):
            hook_point_prefix = prefix + ('.' if prefix else '') + 'hook_point'
            yield hook_point_prefix, self.hook_point
  \<close>
  and on any other module the method of \<^verbatim>\<open>nn.Module\<close>, which yields the module and then
  the named modules of each entry of \<^verbatim>\<open>_modules\<close>.  In a tree no object is met twice, so
  the tests on \<^verbatim>\<open>memo\<close> all succeed.
\<close>

function named_modules :: "string \<Rightarrow> module \<Rightarrow> (string \<times> module) list" where
  "named_modules prefix (HookedInstance m hp) =
     (prefix, HookedInstance m hp)
     # concat (map (\<lambda>(name, module).
                  if is_HookedInstance module
                  then named_modules (join_path prefix name) module
                  else (join_path prefix name, module)
                       # named_modules (join_path prefix name) module)
         (named_children m))
     @ (case hp of
          None \<Rightarrow> []
        | Some p \<Rightarrow> [(join_path prefix ''hook_point'', p)])"
| "named_modules prefix (Module k c f a ms) =
     (prefix, Module k c f a ms)
     # concat (map (\<lambda>(name, module). named_modules (join_path prefix name) module) ms)"
  by pat_completeness auto
termination
proof -
  have in_list: "(n, c) \<in> set ms \<Longrightarrow> size c < Suc (size_list (size_prod (\<lambda>x. 0) size) ms)"
    for n c and ms :: "(string \<times> module) list"
    by (induction ms) auto
  have sz: "(n, c) \<in> set (named_children m) \<Longrightarrow> size c < size m" for n c m
    by (cases m) (auto dest: in_list split: option.splits)
  show ?thesis
  proof (relation "measure (\<lambda>(p, m). size m)", goal_cases)
    case 1
    show ?case by simp
  next
    case (2 prefix m hp x name module)
    then show ?case using sz [of name module m] by simp
  next
    case (3 prefix m hp x name module)
    then show ?case using sz [of name module m] by simp
  next
    case (4 prefix k c f a ms x name module)
    then show ?case using in_list [of name module ms] by simp
  qed
qed

text \<open>
  \<^verbatim>\<open>HookedRootModule.setup\<close>, called at the end of the constructor, fills two
  dictionaries from the traversal:
  \<^verbatim>\<open>
    for name, module in self.named_modules():
        if name == "":
            continue
        module.name = name
        self.mod_dict[name] = module
        if isinstance(module, HookPoint):
            self.hook_dict[name] = module
  \<close>
  A dictionary keeps a key at the place of its first insertion.
\<close>

definition hooked_setup :: "module \<Rightarrow> (string \<times> module) list \<times> (string \<times> module) list" where
  "hooked_setup self =
     fold (\<lambda>(name, module) (mod_dict, hook_dict).
             if name = [] then (mod_dict, hook_dict)
             else (AList.update name module mod_dict,
                   if is_HookPoint module then AList.update name module hook_dict
                   else hook_dict))
       (named_modules [] self) ([], [])"

text \<open>\<^verbatim>\<open>list_all_hooks\<close>: the items of \<^verbatim>\<open>hook_dict\<close>.\<close>

definition list_all_hooks :: "module \<Rightarrow> (string \<times> module) list" where
  "list_all_hooks self = snd (hooked_setup self)"

definition hook_names :: "module \<Rightarrow> string list" where
  "hook_names self = map fst (list_all_hooks self)"

subsection \<open>The expected hook names\<close>

text \<open>
  \<^verbatim>\<open>has_implemented_forward\<close> reads the source of \<open>forward\<close>.  The forward of a wrapper
  is \<open>new_forward\<close>, which \<^verbatim>\<open>functools.wraps\<close> marks as wrapping the original forward:
  the source that is read is the one of the wrapped module.
\<close>

fun has_implemented_forward :: "module \<Rightarrow> bool" where
  "has_implemented_forward (Module k c f a ms) = f"
| "has_implemented_forward (HookedInstance m hp) = has_implemented_forward m"

text \<open>
  The hook names as the specification describes them: the dotted path, followed by
  \<open>hook_point\<close>, of every descendant child that has an implemented forward computation and
  is not itself an observation point.
\<close>

function spec_hook_names :: "string \<Rightarrow> module \<Rightarrow> string list" where
  "spec_hook_names prefix m =
     concat (map (\<lambda>(name, child).
                (if has_implemented_forward child \<and> \<not> is_HookPoint child
                 then [join_path (join_path prefix name) ''hook_point'']
                 else [])
                @ spec_hook_names (join_path prefix name) child)
       (named_children m))"
  by pat_completeness auto
termination
proof -
  have in_list: "(n, c) \<in> set ms \<Longrightarrow> size c < Suc (size_list (size_prod (\<lambda>x. 0) size) ms)"
    for n c and ms :: "(string \<times> module) list"
    by (induction ms) auto
  have sz: "(n, c) \<in> set (named_children m) \<Longrightarrow> size c < size m" for n c m
    by (cases m) (auto dest: in_list split: option.splits)
  show ?thesis
    by (relation "measure (\<lambda>(p, m). size m)") (auto dest: sz)
qed

declare spec_hook_names.simps [simp del]

text \<open>
  The hook names that the engine produces, read off the tree that is wrapped.  A wrapper
  placed at \<open>prefix\<close> around \<open>m\<close> has its own \<open>hook_point\<close> unless \<open>m\<close> has an attribute of
  that name; below it, an observation point that is a child of \<open>m\<close> keeps its own path,
  the elements of an ordered container are wrapped at the path of the container followed
  by their position, the values of a keyed container at the path of the container followed
  by their key, and any other child is wrapped at its path.
\<close>

function engine_hook_names :: "string \<Rightarrow> module \<Rightarrow> string list" where
  "engine_hook_names prefix m =
     concat (map (\<lambda>(name, child).
                if is_HookPoint child then [join_path prefix name]
                else if is_ordered child then
                  concat (map (\<lambda>(i, e).
                      engine_hook_names (join_path (join_path prefix name) (string_of_nat i)) e)
                    (enumerate 0 (map snd (named_children child))))
                else if is_ModuleDict child then
                  concat (map (\<lambda>(key, e).
                      engine_hook_names (join_path (join_path prefix name) key) e)
                    (named_children child))
                else engine_hook_names (join_path prefix name) child)
       (named_children m))
     @ (if has_hook_point m then [] else [join_path prefix ''hook_point''])"
  by pat_completeness auto
termination
proof -
  have in_list: "(n, c) \<in> set ms \<Longrightarrow> size c < Suc (size_list (size_prod (\<lambda>x. 0) size) ms)"
    for n c and ms :: "(string \<times> module) list"
    by (induction ms) auto
  have sz: "(n, c) \<in> set (named_children m) \<Longrightarrow> size c < size m" for n c m
    by (cases m) (auto dest: in_list split: option.splits)
  have el: "(i, e) \<in> set (enumerate j (map snd xs)) \<Longrightarrow> \<exists>n. (n, e) \<in> set xs"
    for i j e and xs :: "(string \<times> module) list"
    by (induction xs arbitrary: j) auto
  show ?thesis
    by (relation "measure (\<lambda>(p, m). size m)")
       (auto dest!: sz el dest: sz less_trans)
qed

declare engine_hook_names.simps [simp del]

text \<open>
  The invariants of \<^verbatim>\<open>_modules\<close> that the runtime maintains: the names of the sub-modules of
  an object are distinct and not empty, and an observation point has no sub-modules.
\<close>

fun wf_module :: "module \<Rightarrow> bool" where
  "wf_module (Module k c f a ms) =
     (distinct (map fst ms) \<and> [] \<notin> set (map fst ms)
      \<and> (if k = HookPointK then ms = [] else True)
      \<and> list_all (\<lambda>(n, child). wf_module child) ms)"
| "wf_module (HookedInstance m hp) =
     (wf_module m \<and> (case hp of None \<Rightarrow> True | Some p \<Rightarrow> wf_module p))"

text \<open>
  Trees that the engine can restore: every ordered or keyed container that is a child has
  no attributes of its own, and the keys of an ordered container are the positions of its
  elements.
\<close>

function restorable :: "module \<Rightarrow> bool" where
  "restorable m =
     list_all (\<lambda>(name, child).
         if is_HookPoint child then True
         else if is_ordered child then
           attrs child = []
           \<and> map fst (named_children child)
               = map string_of_nat [0..<length (named_children child)]
           \<and> list_all (\<lambda>(i, e). restorable e) (named_children child)
         else if is_ModuleDict child then
           attrs child = [] \<and> list_all (\<lambda>(key, e). restorable e) (named_children child)
         else restorable child)
       (named_children m)"
  by pat_completeness auto
termination
proof -
  have in_list: "(n, c) \<in> set ms \<Longrightarrow> size c < Suc (size_list (size_prod (\<lambda>x. 0) size) ms)"
    for n c and ms :: "(string \<times> module) list"
    by (induction ms) auto
  have sz: "(n, c) \<in> set (named_children m) \<Longrightarrow> size c < size m" for n c m
    by (cases m) (auto dest: in_list split: option.splits)
  show ?thesis
    by (relation "measure size") (auto dest!: sz dest: less_trans)
qed

declare restorable.simps [simp del]

text \<open>
  Wrapping as a computation that may raise: no statement on the path of an instance does,
  so the result is always the wrapper.
\<close>

definition auto_hook_result :: "module \<Rightarrow> py_error + module" where
  "auto_hook_result m = Inr (auto_hook m)"

text \<open>A child that is neither a recognised container nor a standalone computational unit.\<close>

definition uninterpretable :: "module \<Rightarrow> bool" where
  "uninterpretable child =
     (\<not> is_ordered child \<and> \<not> is_ModuleDict child \<and> \<not> is_HookPoint child
      \<and> \<not> has_implemented_forward child)"

text \<open>
  The value that the wrapping loop leaves under the name of a child: the child itself when
  the loop skips it, the value it assigns otherwise.
\<close>

definition replaced_child :: "module \<Rightarrow> module" where
  "replaced_child s = (case wrap_child s of None \<Rightarrow> s | Some v \<Rightarrow> v)"

text \<open>The entries of a container that holds \<open>vs\<close> at the positions \<open>0\<close>, \<open>1\<close>, ...\<close>

definition indexed :: "module list \<Rightarrow> (string \<times> module) list" where
  "indexed vs = zip (map string_of_nat [0..<length vs]) vs"

text \<open>The names under which a traversal yields observation points.\<close>

definition hook_point_names :: "(string \<times> module) list \<Rightarrow> string list" where
  "hook_point_names xs = map fst (filter (\<lambda>(n, x). is_HookPoint x) xs)"

subsection \<open>Example trees\<close>

definition linear :: module where
  "linear = Module OtherK ''Linear'' True [(''weight'', 1), (''bias'', 2)] []"

definition simple_module :: module where
  "simple_module = Module OtherK ''SimpleModule'' True [] [(''inner1'', linear)]"

definition simple_nested_module_list :: module where
  "simple_nested_module_list =
     Module OtherK ''SimpleNestedModuleList'' True []
       [(''bla'', Module ModuleListK ''ModuleList'' False []
                   [(''0'', simple_module), (''1'', simple_module)])]"

definition named_sequential_net :: module where
  "named_sequential_net =
     Module OtherK ''Net'' True []
       [(''seq'', Module SequentialK ''Sequential'' True [] [(''conv'', linear)])]"

definition layers_list :: module where
  "layers_list =
     Module ModuleListK ''ModuleList'' False [] [(''0'', linear), (''1'', linear)]"

definition heads_dict :: module where
  "heads_dict =
     Module ModuleDictK ''ModuleDict'' False [] [(''q'', linear), (''k'', linear)]"

definition abstract_module :: module where
  "abstract_module = Module OtherK ''Module'' False [] []"

definition mixed_net :: module where
  "mixed_net =
     Module OtherK ''Net'' True []
       [(''hook_a'', new_HookPoint), (''layers'', layers_list), (''heads'', heads_dict),
        (''abstract'', abstract_module)]"

definition hooked_linear :: module where
  "hooked_linear = HookedInstance linear (Some new_HookPoint)"

section \<open>The interface adapter\<close>

subsection \<open>Configuration records\<close>

text \<open>\<^verbatim>\<open>HookedTransformerAdapterCfg\<close>: the five attribute paths.\<close>

record adapter_cfg =
  block_attr :: string
  lm_head_attr :: string
  embedding_attr :: string
  positional_embedding_attr :: string
  last_layernorm_attr :: "string option"

text \<open>The fields of \<^verbatim>\<open>HookedTransformerConfig\<close> that the constructor reads.\<close>

record transformer_cfg =
  tokenizer_name :: "string option"
  d_vocab :: int
  positional_embedding_type :: string
  use_hook_tokens :: bool
  device :: "string option"

record tokenizer =
  pad_token :: "string option"
  eos_token :: "string option"

text \<open>
  The state of \<open>self.tokenizer\<close>: the attribute may never have been assigned, may hold
  Python's \<open>None\<close>, or may hold a tokenizer.
\<close>

datatype tokenizer_attr = Unset | PyNone | Tok tokenizer

text \<open>
  The collaborators of the constructor that are not part of this repository's sources:
  the model loader, the tokenizer loader, \<^verbatim>\<open>HookedTransformer.set_tokenizer\<close>, the list
  \<^verbatim>\<open>NON_HF_HOSTED_MODEL_NAMES\<close>, attribute lookup on the wrapped model, and
  \<^verbatim>\<open>auto_hook\<close> as imported by the adapter from \<^verbatim>\<open>.hook\<close>.  \<open>'m\<close> is the type of
  unwrapped models, \<open>'o\<close> the type of objects reachable from the wrapped model.
\<close>

record ('m, 'o) collaborators =
  from_pretrained :: "string \<Rightarrow> py_error + 'm"
  hook_model :: "'m \<Rightarrow> py_error + 'o"
  tokenizer_from_pretrained :: "string \<Rightarrow> py_error + tokenizer"
  set_tokenizer :: "tokenizer \<Rightarrow> string \<Rightarrow> py_error + tokenizer"
  non_hf_hosted :: "string list"
  getattr :: "'o \<Rightarrow> string \<Rightarrow> 'o option"
  iter_blocks :: "'o \<Rightarrow> 'o list option"

text \<open>The adapted model: the attributes assigned by the constructor.\<close>

record 'o adapter =
  wrapped_model :: 'o
  the_tokenizer :: tokenizer
  unembed :: 'o
  embed :: 'o
  ln_final :: "'o option"
  pos_embed :: "'o option"
  hook_tokens :: bool
  blocks :: "'o list"
  the_device :: "string option"

subsection \<open>Construction\<close>

text \<open>
  \<^verbatim>\<open>validate_args\<close>:
  \<^verbatim>\<open>
    if (hf_model_name is not None) == (model is not None or tokenizer is not None):
        raise ValueError(...)
  \<close>
\<close>

definition validate_args ::
  "string option \<Rightarrow> 'm option \<Rightarrow> tokenizer option \<Rightarrow> py_error + unit" where
  "validate_args hf_model_name model tok =
     (if (hf_model_name \<noteq> None) = (model \<noteq> None \<or> tok \<noteq> None)
      then Inl (ValueError
        ''Provide either a model name or both model and tokenizer objects, not both or neither.'')
      else Inr ())"

text \<open>
  Lines 144--149: the model is loaded from its name, or taken from the pair, and wrapped;
  any other combination raises.
\<close>

definition resolve_model ::
  "('m, 'o) collaborators \<Rightarrow> string option \<Rightarrow> 'm option \<Rightarrow> tokenizer option \<Rightarrow> py_error + 'o"
  where
  "resolve_model env hf_model_name model tok =
     (case hf_model_name of
        Some name \<Rightarrow>
          (case from_pretrained env name of
             Inl e \<Rightarrow> Inl e
           | Inr m \<Rightarrow> hook_model env m)
      | None \<Rightarrow>
          (case (model, tok) of
             (Some m, Some t) \<Rightarrow> hook_model env m
           | _ \<Rightarrow> Inl (ValueError
               ''Invalid input. Provide either a model name (str) or both model and tokenizer objects.'')))"

text \<open>
  Lines 154--189: the tokenizer argument, then the tokenizer named by the configuration
  (not loaded when the name is on the non-hosted list: only a warning is logged, and
  \<open>self.tokenizer\<close> is not assigned), then no tokenizer at all, which asserts that the
  configuration has a vocabulary size and assigns \<open>None\<close>.
\<close>

definition resolve_tokenizer ::
  "('m, 'o) collaborators \<Rightarrow> transformer_cfg \<Rightarrow> tokenizer option \<Rightarrow> string
     \<Rightarrow> py_error + tokenizer_attr" where
  "resolve_tokenizer env cfg tok default_padding_side =
     (case tok of
        Some t \<Rightarrow>
          (case set_tokenizer env t default_padding_side of
             Inl e \<Rightarrow> Inl e
           | Inr t' \<Rightarrow> Inr (Tok t'))
      | None \<Rightarrow>
          (case tokenizer_name cfg of
             Some name \<Rightarrow>
               (if name \<in> set (non_hf_hosted env) then Inr Unset
                else
                  (case tokenizer_from_pretrained env name of
                     Inl e \<Rightarrow> Inl e
                   | Inr t \<Rightarrow>
                       (case set_tokenizer env t default_padding_side of
                          Inl e \<Rightarrow> Inl e
                        | Inr t' \<Rightarrow> Inr (Tok t'))))
           | None \<Rightarrow>
               (if d_vocab cfg \<noteq> - 1 then Inr PyNone
                else Inl (AssertionError
                  ''Must provide a tokenizer if d_vocab is not provided''))))"

text \<open>
  Line 191, executed on every path:
  \<^verbatim>\<open>self.tokenizer.pad_token = self.tokenizer.eos_token\<close>.
\<close>

definition force_pad_token :: "tokenizer_attr \<Rightarrow> py_error + tokenizer" where
  "force_pad_token a =
     (case a of
        Unset \<Rightarrow> Inl (AttributeError ''tokenizer'')
      | PyNone \<Rightarrow> Inl (AttributeError ''eos_token'')
      | Tok t \<Rightarrow> Inr (t\<lparr>pad_token := eos_token t\<rparr>))"

text \<open>\<^verbatim>\<open>str.split\<close> on a separator character.\<close>

fun split_on :: "char \<Rightarrow> string \<Rightarrow> string list" where
  "split_on sep [] = [[]]"
| "split_on sep (c # cs) =
     (if c = sep then [] # split_on sep cs
      else (case split_on sep cs of
              [] \<Rightarrow> [[c]]
            | w # ws \<Rightarrow> (c # w) # ws))"

text \<open>
  \<^verbatim>\<open>_get_attr_recursively\<close>:
  \<^verbatim>\<open>
    attrs = attr.split('.')
    for a in attrs:
        obj = getattr(obj, a)
    return obj
  \<close>
\<close>

fun follow_attrs :: "('o \<Rightarrow> string \<Rightarrow> 'o option) \<Rightarrow> 'o \<Rightarrow> string list \<Rightarrow> py_error + 'o" where
  "follow_attrs ga obj [] = Inr obj"
| "follow_attrs ga obj (a # as) =
     (case ga obj a of
        None \<Rightarrow> Inl (AttributeError a)
      | Some obj' \<Rightarrow> follow_attrs ga obj' as)"

definition get_attr_recursively ::
  "('m, 'o) collaborators \<Rightarrow> 'o \<Rightarrow> string \<Rightarrow> py_error + 'o" where
  "get_attr_recursively env obj attr = follow_attrs (getattr env) obj (split_on CHR ''.'' attr)"

text \<open>
  \<^verbatim>\<open>_get_model_blocks\<close>: the resolved attribute must be an iterable with a length; each
  block gets its forward replaced by \<open>wrapped_forward\<close>, which leaves the block object in
  its place in the list.
\<close>

definition get_model_blocks ::
  "('m, 'o) collaborators \<Rightarrow> adapter_cfg \<Rightarrow> 'o \<Rightarrow> py_error + 'o list" where
  "get_model_blocks env map_cfg m =
     (case get_attr_recursively env m (block_attr map_cfg) of
        Inl e \<Rightarrow> Inl e
      | Inr b \<Rightarrow>
          (case iter_blocks env b of
             None \<Rightarrow> Inl (AssertionError ''Expected an iterable of modules'')
           | Some bs \<Rightarrow> Inr bs))"

text \<open>Lines 192--215: the slots.\<close>

definition bind_slots ::
  "('m, 'o) collaborators \<Rightarrow> adapter_cfg \<Rightarrow> transformer_cfg \<Rightarrow> bool \<Rightarrow> 'o \<Rightarrow> tokenizer
     \<Rightarrow> py_error + 'o adapter" where
  "bind_slots env map_cfg cfg move_to_device m t =
     (case get_attr_recursively env m (lm_head_attr map_cfg) of
        Inl e \<Rightarrow> Inl e
      | Inr u \<Rightarrow>
     (case get_attr_recursively env m (embedding_attr map_cfg) of
        Inl e \<Rightarrow> Inl e
      | Inr em \<Rightarrow>
     (case (case last_layernorm_attr map_cfg of
              None \<Rightarrow> Inr None
            | Some p \<Rightarrow> map_sum id Some (get_attr_recursively env m p)) of
        Inl e \<Rightarrow> Inl e
      | Inr ln \<Rightarrow>
     (case (if positional_embedding_type cfg \<noteq> ''rotary''
            then map_sum id Some
                   (get_attr_recursively env m (positional_embedding_attr map_cfg))
            else Inr None) of
        Inl e \<Rightarrow> Inl e
      | Inr pe \<Rightarrow>
     (case get_model_blocks env map_cfg m of
        Inl e \<Rightarrow> Inl e
      | Inr bs \<Rightarrow>
          (if move_to_device \<and> device cfg = None
           then Inl (AssertionError ''device is not provided'')
           else Inr \<lparr>wrapped_model = m, the_tokenizer = t, unembed = u, embed = em,
                     ln_final = ln, pos_embed = pe, hook_tokens = use_hook_tokens cfg,
                     blocks = bs, the_device = device cfg\<rparr>))))))"

text \<open>
  \<^verbatim>\<open>HookedTransformerAdapter.__init__\<close>.  The constructor returns the object only when
  no step raised.
\<close>

definition adapter_init ::
  "('m, 'o) collaborators \<Rightarrow> adapter_cfg \<Rightarrow> transformer_cfg \<Rightarrow> string option \<Rightarrow> 'm option
     \<Rightarrow> tokenizer option \<Rightarrow> bool \<Rightarrow> string \<Rightarrow> py_error + 'o adapter" where
  "adapter_init env map_cfg cfg hf_model_name model tok move_to_device default_padding_side =
     (case validate_args hf_model_name model tok of
        Inl e \<Rightarrow> Inl e
      | Inr _ \<Rightarrow>
     (case resolve_model env hf_model_name model tok of
        Inl e \<Rightarrow> Inl e
      | Inr m \<Rightarrow>
     (case resolve_tokenizer env cfg tok default_padding_side of
        Inl e \<Rightarrow> Inl e
      | Inr a \<Rightarrow>
     (case force_pad_token a of
        Inl e \<Rightarrow> Inl e
      | Inr t \<Rightarrow> bind_slots env map_cfg cfg move_to_device m t))))"

subsection \<open>Weight accessors\<close>

datatype accessor =
    W_E | W_K | W_Q | W_V | W_O | W_in | W_gate | W_out
  | b_K | b_Q | b_V | b_O | b_in | b_out | QK | OV

text \<open>
  The properties of lines 267--330.  \<open>W_E\<close> returns \<open>self.embed.weight\<close>; every other
  accessor raises.
\<close>

definition read_accessor ::
  "('m, 'o) collaborators \<Rightarrow> 'o adapter \<Rightarrow> accessor \<Rightarrow> py_error + 'o" where
  "read_accessor env a acc =
     (case acc of
        W_E \<Rightarrow>
          (case getattr env (embed a) ''weight'' of
             None \<Rightarrow> Inl (AttributeError ''weight'')
           | Some w \<Rightarrow> Inr w)
      | _ \<Rightarrow> Inl (NotImplementedError
          ''This method is not implemented for HookedTransformerAdapter''))"

text \<open>
  A concrete environment: models and objects are numbers; model \<open>gpt2\<close> loads as object 1,
  whose attributes \<open>lm_head\<close>, \<open>wte\<close>, \<open>wpe\<close>, \<open>h\<close> are objects 2 to 5; wrapping leaves the
  number unchanged.
\<close>

definition example_env :: "(nat, nat) collaborators" where
  "example_env =
     \<lparr>from_pretrained = (\<lambda>name. if name = ''gpt2'' then Inr 1 else Inl (ExternalError name)),
      hook_model = Inr,
      tokenizer_from_pretrained =
        (\<lambda>name. Inr \<lparr>pad_token = None, eos_token = Some ''<eos>''\<rparr>),
      set_tokenizer = (\<lambda>t side. Inr t),
      non_hf_hosted = [''llama-7b-hf''],
      getattr = (\<lambda>obj a.
         if obj = 1 \<and> a = ''lm_head'' then Some 2
         else if obj = 1 \<and> a = ''wte'' then Some 3
         else if obj = 1 \<and> a = ''wpe'' then Some 4
         else if obj = 1 \<and> a = ''h'' then Some 5
         else if obj = 3 \<and> a = ''weight'' then Some 6
         else None),
      iter_blocks = (\<lambda>obj. if obj = 5 then Some [7, 8] else None)\<rparr>"

definition example_map_cfg :: adapter_cfg where
  "example_map_cfg =
     \<lparr>block_attr = ''h'', lm_head_attr = ''lm_head'', embedding_attr = ''wte'',
      positional_embedding_attr = ''wpe'', last_layernorm_attr = None\<rparr>"

definition example_cfg :: "string option \<Rightarrow> int \<Rightarrow> transformer_cfg" where
  "example_cfg name vocab =
     \<lparr>tokenizer_name = name, d_vocab = vocab, positional_embedding_type = ''standard'',
      use_hook_tokens = False, device = Some ''cpu''\<rparr>"

definition example_tokenizer :: tokenizer where
  "example_tokenizer = \<lparr>pad_token = None, eos_token = Some ''<eos>''\<rparr>"


definition exactly_one_mode :: "string option \<Rightarrow> 'm option \<Rightarrow> tokenizer option \<Rightarrow> bool" where
  "exactly_one_mode hf_model_name model tok =
     ((hf_model_name \<noteq> None \<and> model = None \<and> tok = None)
      \<or> (hf_model_name = None \<and> model \<noteq> None \<and> tok \<noteq> None))"

section \<open>Properties of the engine\<close>

lemma string_of_nat_nonempty: "string_of_nat n \<noteq> []"
  by (subst string_of_nat.simps) simp

lemma string_of_nat_length: "length (string_of_nat n) = Suc 0 \<longleftrightarrow> n < 10"
proof (cases "n < 10")
  case True
  then show ?thesis by (subst string_of_nat.simps) simp
next
  case False
  have "length (string_of_nat (n div 10)) \<noteq> 0"
    using string_of_nat_nonempty by simp
  with False show ?thesis by (subst string_of_nat.simps) simp
qed

lemma digit_char_inj: "a < 10 \<Longrightarrow> b < 10 \<Longrightarrow> char_of (48 + a) = char_of (48 + b) \<Longrightarrow> a = (b::nat)"
  by simp

lemma string_of_nat_inj: "string_of_nat n = string_of_nat m \<Longrightarrow> n = m"
proof (induction n arbitrary: m rule: string_of_nat.induct)
  case (1 n)
  show ?case
  proof (cases "n < 10")
    case True
    then have "length (string_of_nat n) = Suc 0" by (simp add: string_of_nat_length)
    with "1.prems" have m: "m < 10" by (simp add: string_of_nat_length)
    from True m "1.prems" have "char_of (48 + n) = (char_of (48 + m) :: char)"
      by (subst (asm) string_of_nat.simps, subst (asm) (2) string_of_nat.simps) simp
    with True m show ?thesis by (rule digit_char_inj)
  next
    case False
    then have "length (string_of_nat n) \<noteq> Suc 0" by (simp add: string_of_nat_length)
    with "1.prems" have m: "\<not> m < 10" by (simp add: string_of_nat_length)
    from False m "1.prems"
    have eq: "string_of_nat (n div 10) @ [char_of (48 + n mod 10)]
            = string_of_nat (m div 10) @ [char_of (48 + m mod 10)]"
      by (subst (asm) string_of_nat.simps, subst (asm) (2) string_of_nat.simps) simp
    then have "string_of_nat (n div 10) = string_of_nat (m div 10)"
      and c: "char_of (48 + n mod 10) = (char_of (48 + m mod 10) :: char)"
      by simp_all
    with False "1.IH" have d: "n div 10 = m div 10" by blast
    from c have "n mod 10 = m mod 10" by (intro digit_char_inj) simp_all
    with d show ?thesis by (metis div_mult_mod_eq)
  qed
qed


lemma update_fresh: "k \<notin> fst ` set al \<Longrightarrow> AList.update k v al = al @ [(k, v)]"
  by (induction al) auto

lemma update_middle:
  "k \<notin> fst ` set xs \<Longrightarrow> AList.update k v (xs @ (k, w) # ys) = xs @ (k, v) # ys"
  by (induction xs) auto

lemma indexed_snoc: "indexed (vs @ [x]) = indexed vs @ [(string_of_nat (length vs), x)]"
  by (simp add: indexed_def)

lemma indexed_keys: "map fst (indexed vs) = map string_of_nat [0..<length vs]"
  by (simp add: indexed_def)

lemma indexed_values: "map snd (indexed vs) = vs"
  by (simp add: indexed_def)

lemma indexed_length: "length (indexed vs) = length vs"
  by (simp add: indexed_def)

lemma indexed_fresh: "string_of_nat (length vs) \<notin> fst ` set (indexed vs)"
proof
  assume "string_of_nat (length vs) \<in> fst ` set (indexed vs)"
  then have "string_of_nat (length vs) \<in> set (map string_of_nat [0..<length vs])"
    by (simp add: indexed_keys [symmetric])
  then obtain i where "i < length vs" "string_of_nat i = string_of_nat (length vs)"
    by auto
  then show False using string_of_nat_inj by blast
qed

lemma indexed_distinct: "distinct (map fst (indexed vs))"
  by (simp add: indexed_keys distinct_map inj_on_def string_of_nat_inj)

lemma fold_append_module:
  "fold (\<lambda>(i, e) container. append_module container (h e)) suf (Module k c f a (indexed vs))
   = Module k c f a (indexed (vs @ map (h \<circ> snd) suf))"
proof (induction suf arbitrary: vs)
  case Nil
  show ?case by simp
next
  case (Cons p suf)
  obtain i e where p: "p = (i, e)" by (cases p)
  have "append_module (Module k c f a (indexed vs)) (h e) = Module k c f a (indexed (vs @ [h e]))"
    by (simp add: indexed_length indexed_snoc update_fresh indexed_fresh)
  then show ?case using Cons.IH [of "vs @ [h e]"] by (simp add: p)
qed

lemma fold_setitem:
  "distinct (map fst (pre @ suf)) \<Longrightarrow>
   fold (\<lambda>(key, e) container. setitem container key (h e)) suf
     (Module k c f a (map (\<lambda>(key, e). (key, h e)) pre))
   = Module k c f a (map (\<lambda>(key, e). (key, h e)) (pre @ suf))"
proof (induction suf arbitrary: pre)
  case Nil
  show ?case by simp
next
  case (Cons p suf)
  obtain key e where p: "p = (key, e)" by (cases p)
  from Cons.prems have fresh: "key \<notin> fst ` set (map (\<lambda>(key, e). (key, h e)) pre)"
    by (force simp: p)
  have "setitem (Module k c f a (map (\<lambda>(key, e). (key, h e)) pre)) key (h e)
        = Module k c f a (map (\<lambda>(key, e). (key, h e)) (pre @ [(key, e)]))"
    using update_fresh [OF fresh] by simp
  moreover from Cons.prems have "distinct (map fst ((pre @ [(key, e)]) @ suf))"
    by (simp add: p)
  ultimately show ?case using Cons.IH [of "pre @ [(key, e)]"] by (simp add: p)
qed

lemma fold_setattr:
  "distinct (map fst (pre @ suf)) \<Longrightarrow> map fst pre' = map fst pre \<Longrightarrow>
   fold (\<lambda>(n, s) self. case g s of None \<Rightarrow> self | Some v \<Rightarrow> setattr self n v) suf
     (Module k c f a (pre' @ suf))
   = Module k c f a (pre' @ map (\<lambda>(n, s). (n, case g s of None \<Rightarrow> s | Some v \<Rightarrow> v)) suf)"
proof (induction suf arbitrary: pre pre')
  case Nil
  show ?case by simp
next
  case (Cons p suf)
  obtain n s where p: "p = (n, s)" by (cases p)
  let ?v = "case g s of None \<Rightarrow> s | Some v \<Rightarrow> v"
  from Cons.prems have fresh: "n \<notin> fst ` set pre'"
    by (metis (no_types, lifting) p distinct_append disjoint_iff fst_conv list.set_intros(1)
        list.set_map list.simps(9) map_append)
  have step: "(case g s of None \<Rightarrow> Module k c f a (pre' @ (n, s) # suf)
               | Some v \<Rightarrow> setattr (Module k c f a (pre' @ (n, s) # suf)) n v)
              = Module k c f a ((pre' @ [(n, ?v)]) @ suf)"
    using update_middle [OF fresh] by (simp split: option.splits)
  from Cons.prems have d: "distinct (map fst ((pre @ [(n, s)]) @ suf))" by (simp add: p)
  from Cons.prems have k: "map fst (pre' @ [(n, ?v)]) = map fst (pre @ [(n, s)])" by simp
  show ?case
    using Cons.IH [OF d k] step by (simp add: p)
qed


lemma indexed_Nil: "indexed [] = []"
  by (simp add: indexed_def)

lemma wrap_submodules_Module:
  assumes "distinct (map fst ms)"
  shows "wrap_submodules (Module k c f a ms)
         = Module k c f a (map (\<lambda>(n, s). (n, replaced_child s)) ms)"
proof -
  have "fold (\<lambda>(n, s) self. case wrap_child s of None \<Rightarrow> self | Some v \<Rightarrow> setattr self n v) ms
          (Module k c f a ([] @ ms))
        = Module k c f a ([] @ map (\<lambda>(n, s). (n, case wrap_child s of None \<Rightarrow> s | Some v \<Rightarrow> v)) ms)"
    by (rule fold_setattr [where pre = "[]"]) (use assms in simp_all)
  then show ?thesis
    by (simp add: wrap_submodules.simps replaced_child_def)
qed

lemma wrap_submodules_Hooked:
  "wrap_submodules (HookedInstance x hp)
   = HookedInstance (replaced_child x) (map_option replaced_child hp)"
  by (cases hp) (simp_all add: wrap_submodules.simps replaced_child_def split: option.splits)

lemma replaced_child_HookPoint: "is_HookPoint s \<Longrightarrow> replaced_child s = s"
  by (simp add: replaced_child_def wrap_child.simps)

lemma replaced_child_ordered:
  assumes "k = ModuleListK \<or> k = SequentialK"
  shows "replaced_child (Module k c f a ms)
         = Module k c f [] (indexed (map (auto_hook \<circ> snd) ms))"
proof -
  have "fold (\<lambda>(i, e) container. append_module container (auto_hook e)) ms
          (Module k c f [] (indexed []))
        = Module k c f [] (indexed ([] @ map (auto_hook \<circ> snd) ms))"
    by (rule fold_append_module)
  with assms show ?thesis
    by (auto simp: replaced_child_def wrap_child.simps indexed_Nil)
qed

lemma replaced_child_ModuleDict:
  assumes "distinct (map fst ms)"
  shows "replaced_child (Module ModuleDictK c f a ms)
         = Module ModuleDictK c f [] (map (\<lambda>(key, e). (key, auto_hook e)) ms)"
proof -
  have "fold (\<lambda>(key, e) container. setitem container key (auto_hook e)) ms
          (Module ModuleDictK c f [] (map (\<lambda>(key, e). (key, auto_hook e)) []))
        = Module ModuleDictK c f [] (map (\<lambda>(key, e). (key, auto_hook e)) ([] @ ms))"
    by (rule fold_setitem) (use assms in simp)
  then show ?thesis
    by (simp add: replaced_child_def wrap_child.simps)
qed

lemma replaced_child_other:
  "\<not> is_HookPoint s \<Longrightarrow> \<not> is_ordered s \<Longrightarrow> \<not> is_ModuleDict s \<Longrightarrow> replaced_child s = auto_hook s"
  by (simp add: replaced_child_def wrap_child.simps)

lemma auto_hook_differs: "auto_hook s \<noteq> s"
  by (cases s) (auto simp: auto_hook.simps)


lemma wf_distinct_children: "wf_module m \<Longrightarrow> distinct (map fst (named_children m))"
  by (cases m) (auto split: option.splits)

lemma wf_child: "wf_module m \<Longrightarrow> (n, s) \<in> set (named_children m) \<Longrightarrow> wf_module s"
  by (cases m) (auto simp: list_all_iff split: option.splits)

lemma wrapped_children:
  assumes "wf_module m"
  shows "named_children (wrap_submodules m)
         = map (\<lambda>(n, s). (n, replaced_child s)) (named_children m)"
proof (cases m)
  case (Module k c f a ms)
  with assms show ?thesis by (simp add: wrap_submodules_Module)
next
  case (HookedInstance x hp)
  then show ?thesis by (cases hp) (simp_all add: wrap_submodules_Hooked)
qed

lemma wrapped_child_lookup:
  assumes "wf_module m" and "(name, child) \<in> set (named_children m)"
  shows "map_of (named_children (wrap_submodules m)) name = Some (replaced_child child)"
proof -
  from assms have "map_of (named_children m) name = Some child"
    by (simp add: wf_distinct_children)
  then show ?thesis
    by (simp add: wrapped_children [OF assms(1)] map_of_map)
qed

text \<open>
  C5: wrapping preserves the structure of containers.  When a module holds an ordered
  container of \<open>k\<close> children, the wrapped module holds, under the same name, a container
  of the same kind and class whose elements are the \<open>k\<close> wrapped children in the original
  order (\<open>indexed\<close> puts the \<open>i\<close>-th of them at position \<open>i\<close>).  When it holds a keyed
  container, the wrapped module holds a container of the same kind and class with the
  same keys in the same order, each key once, mapped to its wrapped value.
\<close>

theorem C5_container_fidelity:
  assumes "wf_module m" and "(name, child) \<in> set (named_children m)"
  shows "\<exists>m' hp. auto_hook m = HookedInstance m' hp
     \<and> (is_ordered child \<longrightarrow>
           map_of (named_children m') name
             = Some (Module (kind child) (cls child) (fwd child) []
                       (indexed (map (auto_hook \<circ> snd) (named_children child)))))
     \<and> (is_ModuleDict child \<longrightarrow>
           map_of (named_children m') name
             = Some (Module (kind child) (cls child) (fwd child) []
                       (map (\<lambda>(key, e). (key, auto_hook e)) (named_children child))))"
proof -
  have look: "map_of (named_children (wrap_submodules m)) name = Some (replaced_child child)"
    using assms by (rule wrapped_child_lookup)
  have wfc: "wf_module child" using assms by (rule wf_child)
  have ord: "replaced_child child
               = Module (kind child) (cls child) (fwd child) []
                   (indexed (map (auto_hook \<circ> snd) (named_children child)))"
    if "is_ordered child"
    using that by (cases child) (simp_all add: replaced_child_ordered)
  have dict: "replaced_child child
               = Module (kind child) (cls child) (fwd child) []
                   (map (\<lambda>(key, e). (key, auto_hook e)) (named_children child))"
    if "is_ModuleDict child"
    using that wfc by (cases child) (simp_all add: replaced_child_ModuleDict)
  show ?thesis
    using look ord dict by (simp add: auto_hook.simps)
qed


lemma replaced_child_cases:
  assumes "wf_module child"
  shows "if is_HookPoint child then replaced_child child = child
         else if is_ordered child \<or> is_ModuleDict child then
           \<not> is_HookedInstance (replaced_child child)
           \<and> kind (replaced_child child) = kind child
           \<and> cls (replaced_child child) = cls child
           \<and> attrs (replaced_child child) = []
           \<and> list_all is_HookedInstance (map snd (named_children (replaced_child child)))
         else replaced_child child = auto_hook child"
proof (cases child)
  case (Module k c f a ms)
  have wrappers: "list_all is_HookedInstance (map (auto_hook \<circ> snd) ms)"
    by (simp add: list_all_iff auto_hook.simps)
  have dict: "list_all is_HookedInstance (map snd (map (\<lambda>(key, e). (key, auto_hook e)) ms))"
    by (auto simp: list_all_iff auto_hook.simps)
  from assms Module show ?thesis
    using wrappers dict
    by (cases k)
       (simp_all add: replaced_child_HookPoint replaced_child_ordered
          replaced_child_ModuleDict replaced_child_other indexed_values)
next
  case (HookedInstance x hp)
  then show ?thesis by (simp add: replaced_child_other)
qed

text \<open>
  C10, amended: wrapping mutates the module in place.  The closure \<open>unwrap\<close> installed by
  \<open>auto_hook\<close> returns the module in the state the wrapping loop left it in, not a restored
  one.  That module has the same child names in the same order; a child that is an
  observation point is left as it is; an ordered or keyed container is replaced by a new
  container of the same kind and class, without attributes of its own, whose elements are
  all wrappers; every other child is replaced by its wrapper, so that the module no longer
  equals the original one.
\<close>

theorem C10_children_replaced_in_place:
  assumes "wf_module m"
  shows "\<exists>m'. unwrap (auto_hook m) = Inr m'
     \<and> m' = wrap_submodules m
     \<and> map fst (named_children m') = map fst (named_children m)
     \<and> list_all (\<lambda>(name, child).
          map_of (named_children m') name = Some (replaced_child child)
          \<and> (if is_HookPoint child then replaced_child child = child
             else if is_ordered child \<or> is_ModuleDict child then
               \<not> is_HookedInstance (replaced_child child)
               \<and> kind (replaced_child child) = kind child
               \<and> cls (replaced_child child) = cls child
               \<and> attrs (replaced_child child) = []
               \<and> list_all is_HookedInstance
                    (map snd (named_children (replaced_child child)))
             else replaced_child child = auto_hook child
                  \<and> is_HookedInstance (replaced_child child)
                  \<and> replaced_child child \<noteq> child \<and> m' \<noteq> m))
        (named_children m)"
proof -
  define P where "P \<equiv> \<lambda>name child.
      map_of (named_children (wrap_submodules m)) name = Some (replaced_child child)
      \<and> (if is_HookPoint child then replaced_child child = child
         else if is_ordered child \<or> is_ModuleDict child then
           \<not> is_HookedInstance (replaced_child child)
           \<and> kind (replaced_child child) = kind child
           \<and> cls (replaced_child child) = cls child
           \<and> attrs (replaced_child child) = []
           \<and> list_all is_HookedInstance (map snd (named_children (replaced_child child)))
         else replaced_child child = auto_hook child
              \<and> is_HookedInstance (replaced_child child)
              \<and> replaced_child child \<noteq> child \<and> wrap_submodules m \<noteq> m)"
  have un: "unwrap (auto_hook m) = Inr (wrap_submodules m)"
    by (simp add: auto_hook.simps)
  have names: "map fst (named_children (wrap_submodules m)) = map fst (named_children m)"
    by (simp add: wrapped_children [OF assms] case_prod_unfold comp_def)
  have each: "P name child" if mem: "(name, child) \<in> set (named_children m)" for name child
  proof -
    have look: "map_of (named_children (wrap_submodules m)) name = Some (replaced_child child)"
      using assms mem by (rule wrapped_child_lookup)
    have orig: "map_of (named_children m) name = Some child"
      using assms mem by (simp add: wf_distinct_children)
    have wfc: "wf_module child" using assms mem by (rule wf_child)
    have other: "is_HookedInstance (auto_hook child)" "auto_hook child \<noteq> child"
      by (simp add: auto_hook.simps) (rule auto_hook_differs)
    have changed: "wrap_submodules m \<noteq> m" if "replaced_child child \<noteq> child"
      using that look orig by auto
    show ?thesis
      unfolding P_def using look replaced_child_cases [OF wfc] other changed
      by (simp split: if_splits)
  qed
  then have "list_all (\<lambda>(name, child). P name child) (named_children m)"
    by (auto simp: list_all_iff)
  with un names show ?thesis
    unfolding P_def by simp
qed

text \<open>
  C6, amended: wrapping does not fail on a child that is neither a recognised container
  nor a standalone computational unit.  Such a child, unless it is an observation point,
  is wrapped like any other module: the wrapped module holds, under the name of the child,
  a wrapper around it with an observation point of its own (unless the child has an
  attribute \<open>hook_point\<close>), and \<open>auto_hook\<close> returns the wrapper of the module.
\<close>

theorem C6_uninterpretable_child_is_wrapped:
  assumes "wf_module m" and "(name, child) \<in> set (named_children m)"
    and "uninterpretable child" and "\<not> is_HookPoint child"
  shows "\<exists>m' hp. auto_hook_result m = Inr (HookedInstance m' hp)
     \<and> map_of (named_children m') name
         = Some (HookedInstance (wrap_submodules child)
                   (if has_hook_point child then None else Some new_HookPoint))"
proof -
  have "map_of (named_children (wrap_submodules m)) name = Some (replaced_child child)"
    using assms(1,2) by (rule wrapped_child_lookup)
  moreover have "replaced_child child = auto_hook child"
    using assms(3,4) by (simp add: uninterpretable_def replaced_child_other)
  ultimately show ?thesis
    by (simp add: auto_hook_result_def auto_hook.simps)
qed


lemma hook_point_names_simps:
  "hook_point_names [] = []"
  "hook_point_names ((n, x) # xs) = (if is_HookPoint x then [n] else []) @ hook_point_names xs"
  "hook_point_names (xs @ ys) = hook_point_names xs @ hook_point_names ys"
  by (simp_all add: hook_point_names_def)

lemma hook_point_names_concat:
  "set (hook_point_names (concat xss)) = (\<Union>xs \<in> set xss. set (hook_point_names xs))"
  by (induction xss) (simp_all add: hook_point_names_simps)

lemma indexed_enumerate:
  "indexed (map h es) = map (\<lambda>(i, e). (string_of_nat i, h e)) (enumerate 0 es)"
  by (simp add: indexed_def enumerate_eq_zip zip_map1 zip_map2 case_prod_unfold)

lemma enumerate_elem: "(i, e) \<in> set (enumerate j (map snd xs)) \<Longrightarrow> \<exists>n. (n, e) \<in> set xs"
  by (induction xs arbitrary: j) auto

lemma auto_hook_is_HookedInstance: "is_HookedInstance (auto_hook s)"
  by (simp add: auto_hook.simps)

lemma wrapper_hook_names:
  "wf_module m \<Longrightarrow>
   set (hook_point_names (named_modules prefix (auto_hook m))) = set (engine_hook_names prefix m)"
proof (induction prefix m rule: engine_hook_names.induct)
  case (1 prefix m)
  define F where "F \<equiv> \<lambda>(name, module).
      if is_HookedInstance module then named_modules (join_path prefix name) module
      else (join_path prefix name, module) # named_modules (join_path prefix name) module"
  define E where "E \<equiv> \<lambda>(name, child).
      if is_HookPoint child then [join_path prefix name]
      else if is_ordered child then
        concat (map (\<lambda>(i, e).
            engine_hook_names (join_path (join_path prefix name) (string_of_nat i)) e)
          (enumerate 0 (map snd (named_children child))))
      else if is_ModuleDict child then
        concat (map (\<lambda>(key, e). engine_hook_names (join_path (join_path prefix name) key) e)
          (named_children child))
      else engine_hook_names (join_path prefix name) child"
  have wf: "wf_module m" by fact
  have IH_ord: "set (hook_point_names
          (named_modules (join_path (join_path prefix name) (string_of_nat i)) (auto_hook e)))
        = set (engine_hook_names (join_path (join_path prefix name) (string_of_nat i)) e)"
    if "(name, s) \<in> set (named_children m)" "\<not> is_HookPoint s" "is_ordered s"
      "(i, e) \<in> set (enumerate 0 (map snd (named_children s)))" "wf_module e"
    for name s i e
    using "1.IH"(1) [of "(name, s)" name s "(i, e)" i e] that by simp
  have IH_dict: "set (hook_point_names
          (named_modules (join_path (join_path prefix name) key) (auto_hook e)))
        = set (engine_hook_names (join_path (join_path prefix name) key) e)"
    if "(name, s) \<in> set (named_children m)" "\<not> is_HookPoint s" "\<not> is_ordered s"
      "is_ModuleDict s" "(key, e) \<in> set (named_children s)" "wf_module e"
    for name s key e
    using "1.IH"(2) [of "(name, s)" name s "(key, e)" key e] that by simp
  have IH_other: "set (hook_point_names (named_modules (join_path prefix name) (auto_hook s)))
        = set (engine_hook_names (join_path prefix name) s)"
    if "(name, s) \<in> set (named_children m)" "\<not> is_HookPoint s" "\<not> is_ordered s"
      "\<not> is_ModuleDict s" "wf_module s"
    for name s
    using "1.IH"(3) [of "(name, s)" name s] that by simp
  have child: "set (hook_point_names (F (name, replaced_child s))) = set (E (name, s))"
    if mem: "(name, s) \<in> set (named_children m)" for name s
  proof -
    have wfs: "wf_module s" using wf mem by (rule wf_child)
    let ?sp = "join_path prefix name"
    consider (hp) "is_HookPoint s"
      | (ord) "\<not> is_HookPoint s" "is_ordered s"
      | (dict) "\<not> is_HookPoint s" "\<not> is_ordered s" "is_ModuleDict s"
      | (other) "\<not> is_HookPoint s" "\<not> is_ordered s" "\<not> is_ModuleDict s"
      by blast
    then show ?thesis
    proof cases
      case hp
      then obtain c f a ms where s: "s = Module HookPointK c f a ms" by (cases s) auto
      with wfs have "ms = []" by simp
      with s show ?thesis
        by (simp add: F_def E_def replaced_child_HookPoint hook_point_names_simps)
    next
      case other
      then show ?thesis
        using IH_other [OF mem other wfs] auto_hook_is_HookedInstance [of s]
        by (simp add: F_def E_def replaced_child_other)
    next
      case dict
      then obtain c f a ms where s: "s = Module ModuleDictK c f a ms" by (cases s) auto
      have d: "distinct (map fst ms)" using wfs s by simp
      have el: "set (hook_point_names (named_modules (join_path ?sp key) (auto_hook e)))
                = set (engine_hook_names (join_path ?sp key) e)"
        if "(key, e) \<in> set ms" for key e
      proof -
        have "wf_module e" using wfs that s by (auto simp: list_all_iff)
        then show ?thesis using IH_dict [OF mem dict, of key e] that s by simp
      qed
      have "set (hook_point_names (F (name, replaced_child s)))
            = (\<Union>(key, e) \<in> set ms.
                 set (hook_point_names (named_modules (join_path ?sp key) (auto_hook e))))"
        using s d
        by (auto simp: F_def replaced_child_ModuleDict hook_point_names_simps
            hook_point_names_concat)
      also have "\<dots> = (\<Union>(key, e) \<in> set ms. set (engine_hook_names (join_path ?sp key) e))"
        using el by auto
      also have "\<dots> = set (E (name, s))"
        using s by (auto simp: E_def)
      finally show ?thesis .
    next
      case ord
      then obtain k c f a ms where s: "s = Module k c f a ms"
        and k: "k = ModuleListK \<or> k = SequentialK" by (cases s) auto
      let ?es = "map snd ms"
      have el: "set (hook_point_names
                  (named_modules (join_path ?sp (string_of_nat i)) (auto_hook e)))
                = set (engine_hook_names (join_path ?sp (string_of_nat i)) e)"
        if "(i, e) \<in> set (enumerate 0 ?es)" for i e
      proof -
        from enumerate_elem [OF that] obtain n where "(n, e) \<in> set ms" by blast
        then have "wf_module e" using wfs s by (auto simp: list_all_iff)
        then show ?thesis using IH_ord [OF mem ord, of i e] that s by simp
      qed
      have rc: "replaced_child s
                = Module k c f [] (map (\<lambda>(i, e). (string_of_nat i, auto_hook e)) (enumerate 0 ?es))"
        using s k by (simp add: replaced_child_ordered indexed_enumerate [symmetric])
      have "set (hook_point_names (F (name, replaced_child s)))
            = (\<Union>(i, e) \<in> set (enumerate 0 ?es).
                 set (hook_point_names
                        (named_modules (join_path ?sp (string_of_nat i)) (auto_hook e))))"
        using k
        by (auto simp: F_def rc hook_point_names_simps hook_point_names_concat)
      also have "\<dots> = (\<Union>(i, e) \<in> set (enumerate 0 ?es).
                          set (engine_hook_names (join_path ?sp (string_of_nat i)) e))"
        using el by auto
      also have "\<dots> = set (E (name, s))"
        using s k by (auto simp: E_def)
      finally show ?thesis .
    qed
  qed
  have nm: "named_modules prefix (auto_hook m)
        = (prefix, auto_hook m) # concat (map F (named_children (wrap_submodules m)))
          @ (if has_hook_point m then []
             else [(join_path prefix ''hook_point'', new_HookPoint)])"
    by (simp add: auto_hook.simps F_def)
  have ch: "map F (named_children (wrap_submodules m))
        = map (\<lambda>x. F (fst x, replaced_child (snd x))) (named_children m)"
    by (simp add: wrapped_children [OF wf] case_prod_unfold)
  have not_hp: "\<not> is_HookPoint (auto_hook m)"
    by (simp add: auto_hook.simps)
  have "set (hook_point_names (named_modules prefix (auto_hook m)))
        = (\<Union>x \<in> set (named_children m).
             set (hook_point_names (F (fst x, replaced_child (snd x)))))
          \<union> (if has_hook_point m then {} else {join_path prefix ''hook_point''})"
    by (simp add: nm ch not_hp hook_point_names_simps hook_point_names_concat
        new_HookPoint_def)
  also have "\<dots> = (\<Union>x \<in> set (named_children m). set (E x))
          \<union> (if has_hook_point m then {} else {join_path prefix ''hook_point''})"
    using child by force
  also have "\<dots> = set (concat (map E (named_children m))
                          @ (if has_hook_point m then [] else [join_path prefix ''hook_point'']))"
    by simp
  also have "\<dots> = set (engine_hook_names prefix m)"
    by (simp only: E_def engine_hook_names.simps [of prefix m])
  finally show ?case .
qed

section \<open>Properties of the synthesised forward\<close>

text \<open>
  C4, as the claim states it, fails: the forward synthesised by the engine does not drop the
  keyword arguments.  With a hook point that passes the value through and an original
  forward that returns the number of keyword arguments it received, the call with one
  keyword argument differs from the call without it.
\<close>

theorem C4_kwargs_not_dropped_counterexample:
  "new_forward (Some pass_through) count_kwargs_forward [1] [(''scale'', 2)]
     \<noteq> new_forward (Some pass_through) count_kwargs_forward [1] []"
  by (simp add: new_forward_def count_kwargs_forward_def pass_through_def)

text \<open>
  C4, amended: for a wrapped node that has its own observation point, a call of the
  synthesised forward invokes the original forward with the positional and the keyword
  arguments of the call, unchanged, and routes its result through the observation point
  (an exception of the original forward propagates); the block wrapper of the adapter
  invokes the original forward with the positional arguments only.
\<close>

theorem C4_forward_routing:
  "new_forward (Some hp) original_forward args kwargs =
     (case original_forward args kwargs of Inl e \<Rightarrow> Inl e | Inr r \<Rightarrow> hp r)
   \<and> wrapped_forward original_forward args kwargs = original_forward args []"
  by (simp add: new_forward_def wrapped_forward_def)

lemma new_forward_without_hook_point:
  "new_forward None original_forward args kwargs = Inl (AttributeError ''hook_point'')"
  by (simp add: new_forward_def)

lemma wrapped_forward_example:
  "wrapped_forward sum_forward [1, 2] [(''bias'', 10)] = Inr 3
   \<and> new_forward (Some pass_through) sum_forward [1, 2] [(''bias'', 10)] = Inr 13"
  by (simp add: new_forward_def wrapped_forward_def sum_forward_def pass_through_def)

section \<open>Properties of the adapter\<close>

text \<open>
  C7: on every adapted model, each of the accessors \<open>W_Q\<close>, \<open>W_K\<close>, \<open>W_V\<close>, \<open>W_O\<close>,
  \<open>W_in\<close>, \<open>W_gate\<close>, \<open>W_out\<close>, \<open>b_Q\<close>, \<open>b_K\<close>, \<open>b_V\<close>, \<open>b_O\<close>, \<open>b_in\<close>, \<open>b_out\<close>, \<open>QK\<close>
  and \<open>OV\<close> raises \<open>NotImplementedError\<close> with the message that the method is not
  implemented for the adapter, so it returns no tensor.
\<close>

theorem C7_unsupported_accessors:
  fixes env :: "('m, 'o) collaborators" and a :: "'o adapter"
  defines "unsupported \<equiv>
    Inl (NotImplementedError ''This method is not implemented for HookedTransformerAdapter'')"
  shows "read_accessor env a W_Q = unsupported \<and> read_accessor env a W_K = unsupported
    \<and> read_accessor env a W_V = unsupported \<and> read_accessor env a W_O = unsupported
    \<and> read_accessor env a W_in = unsupported \<and> read_accessor env a W_gate = unsupported
    \<and> read_accessor env a W_out = unsupported \<and> read_accessor env a b_Q = unsupported
    \<and> read_accessor env a b_K = unsupported \<and> read_accessor env a b_V = unsupported
    \<and> read_accessor env a b_O = unsupported \<and> read_accessor env a b_in = unsupported
    \<and> read_accessor env a b_out = unsupported \<and> read_accessor env a QK = unsupported
    \<and> read_accessor env a OV = unsupported"
  by (simp add: read_accessor_def unsupported_def)

lemma unsupported_is_no_tensor:
  "acc \<noteq> W_E \<Longrightarrow> read_accessor env a acc \<noteq> Inr t"
  by (cases acc) (simp_all add: read_accessor_def)

text \<open>
  C8 at a concrete input: the model is named (\<open>gpt2\<close>), no tokenizer is given, the
  configuration names no tokenizer and declares a vocabulary of 50257 entries.  The
  constructor assigns \<open>None\<close> to \<open>self.tokenizer\<close> and then reads \<open>eos_token\<close> from it:
  construction raises \<open>AttributeError\<close> instead of returning an adapted model.
\<close>

theorem C8_no_tokenizer_with_vocab_raises:
  "adapter_init example_env example_map_cfg (example_cfg None 50257)
     (Some ''gpt2'') None None True ''right''
   = Inl (AttributeError ''eos_token'')"
  by (simp add: adapter_init_def validate_args_def resolve_model_def resolve_tokenizer_def
      force_pad_token_def example_env_def example_cfg_def)

lemma no_tokenizer_without_vocab_asserts:
  "adapter_init example_env example_map_cfg (example_cfg None (- 1))
     (Some ''gpt2'') None None True ''right''
   = Inl (AssertionError ''Must provide a tokenizer if d_vocab is not provided'')"
  by (simp add: adapter_init_def validate_args_def resolve_model_def resolve_tokenizer_def
      example_env_def example_cfg_def)

lemma no_tokenizer_never_constructs:
  assumes "tok = None" and "tokenizer_name cfg = None"
  shows "adapter_init env map_cfg cfg hf_model_name model tok move side \<noteq> Inr a"
  using assms
  by (auto simp: adapter_init_def resolve_tokenizer_def force_pad_token_def
      split: sum.splits)

lemma named_tokenizer_constructs:
  "adapter_init example_env example_map_cfg (example_cfg (Some ''gpt2'') 50257)
     (Some ''gpt2'') None None True ''right''
   = Inr \<lparr>wrapped_model = 1,
          the_tokenizer = \<lparr>pad_token = Some ''<eos>'', eos_token = Some ''<eos>''\<rparr>,
          unembed = 2, embed = 3, ln_final = None, pos_embed = Some 4,
          hook_tokens = False, blocks = [7, 8], the_device = Some ''cpu''\<rparr>"
  by (simp add: adapter_init_def validate_args_def resolve_model_def resolve_tokenizer_def
      force_pad_token_def bind_slots_def get_attr_recursively_def get_model_blocks_def
      example_env_def example_cfg_def example_map_cfg_def)

text \<open>
  C9: construction accepts exactly one of the two input modes.  When both modes, neither
  mode or an incomplete pair is supplied, the constructor raises \<open>ValueError\<close> and returns
  no object; when exactly one mode is supplied, the check of the arguments passes and the
  model of that mode is the one that is wrapped.
\<close>

theorem C9_input_modes:
  "(\<not> exactly_one_mode hf_model_name model tok \<longrightarrow>
      (\<exists>msg. adapter_init env map_cfg cfg hf_model_name model tok move side
               = Inl (ValueError msg)))
   \<and> (exactly_one_mode hf_model_name model tok \<longrightarrow>
        validate_args hf_model_name model tok = Inr ()
        \<and> resolve_model env hf_model_name model tok =
            (case hf_model_name of
               Some name \<Rightarrow>
                 (case from_pretrained env name of
                    Inl e \<Rightarrow> Inl e
                  | Inr m \<Rightarrow> hook_model env m)
             | None \<Rightarrow> hook_model env (the model)))"
  by (cases hf_model_name; cases model; cases tok)
     (simp_all add: exactly_one_mode_def adapter_init_def validate_args_def resolve_model_def)

theorem C9_input_modes_witness:
  "\<not> exactly_one_mode (Some ''gpt2'') (Some (1::nat)) (Some example_tokenizer)
   \<and> (\<exists>msg. adapter_init example_env example_map_cfg (example_cfg None 50257)
              (Some ''gpt2'') (Some 1) (Some example_tokenizer) True ''right''
            = Inl (ValueError msg))
   \<and> \<not> exactly_one_mode None (Some (1::nat)) None
   \<and> (\<exists>msg. adapter_init example_env example_map_cfg (example_cfg None 50257)
              None (Some 1) None True ''right''
            = Inl (ValueError msg))
   \<and> exactly_one_mode None (Some (1::nat)) (Some example_tokenizer)
   \<and> validate_args None (Some (1::nat)) (Some example_tokenizer) = Inr ()
   \<and> resolve_model example_env None (Some 1) (Some example_tokenizer) = Inr 1"
proof -
  have both: "\<not> exactly_one_mode (Some ''gpt2'') (Some (1::nat)) (Some example_tokenizer)"
    by (simp add: exactly_one_mode_def)
  have half: "\<not> exactly_one_mode None (Some (1::nat)) None"
    by (simp add: exactly_one_mode_def)
  have pair: "exactly_one_mode None (Some (1::nat)) (Some example_tokenizer)"
    by (simp add: exactly_one_mode_def)
  note a = C9_input_modes [of "Some ''gpt2''" "Some (1::nat)" "Some example_tokenizer"
      example_env example_map_cfg "example_cfg None 50257" True "''right''"]
  note b = C9_input_modes [of None "Some (1::nat)" None
      example_env example_map_cfg "example_cfg None 50257" True "''right''"]
  note c = C9_input_modes [of None "Some (1::nat)" "Some example_tokenizer"
      example_env example_map_cfg "example_cfg None 50257" True "''right''"]
  from a both have 1: "\<exists>msg. adapter_init example_env example_map_cfg (example_cfg None 50257)
              (Some ''gpt2'') (Some 1) (Some example_tokenizer) True ''right''
            = Inl (ValueError msg)" by blast
  from b half have 2: "\<exists>msg. adapter_init example_env example_map_cfg (example_cfg None 50257)
              None (Some 1) None True ''right''
            = Inl (ValueError msg)" by blast
  from c pair have 3: "validate_args None (Some (1::nat)) (Some example_tokenizer) = Inr ()
     \<and> resolve_model example_env None (Some 1) (Some example_tokenizer) = Inr 1"
    by (simp add: example_env_def)
  from both half pair 1 2 3 show ?thesis by blast
qed

end
